theory Spec2Isabelle
  imports Main
begin

text \<open>
  A model of the quote client in \<^verbatim>\<open>src/App.vue\<close>: the display helpers, the quote store
  filled by the message handler, and the streaming session around one WebSocket. The search
  request and the price cell of the template are not modelled: the first is an HTTP call,
  the second hands a floating-point number to the locale formatting of the runtime.
\<close>

section \<open>Display formatting helpers of App.vue\<close>

text \<open>
  A JavaScript string is a sequence of code units. The model uses \<^typ>\<open>string\<close>, whose
  characters are the code units 0 to 255; this covers every symbol the quote feed emits.
\<close>

subsection \<open>The regular expression of formatSymbol\<close>

text \<open>
  \<^verbatim>\<open>symbol.replace(/BINANCE:(?<symbol>.+)USDT/, "$1")\<close>: the pattern is the literal
  \<^verbatim>\<open>BINANCE:\<close>, one capture group holding a greedy \<^verbatim>\<open>.+\<close>, and the literal
  \<^verbatim>\<open>USDT\<close>. The pattern has no flags, so the dot matches every code unit except a line
  terminator, the search takes the leftmost position at which the pattern matches, and only
  that first match is replaced.
\<close>

definition is_line_terminator :: "char \<Rightarrow> bool" where
  "is_line_terminator c \<longleftrightarrow> c = CHR 0x0A \<or> c = CHR 0x0D"

definition match_literal :: "string \<Rightarrow> string \<Rightarrow> string option" where
  \<comment> \<open>match a literal at the start of the input; the result is the rest of the input\<close>
  "match_literal p s = (if take (length p) s = p then Some (drop (length p) s) else None)"

definition usdt :: "string \<Rightarrow> (string \<times> string) option" where
  \<comment> \<open>the tail of the pattern, once the group has stopped consuming\<close>
  "usdt s = (case match_literal ''USDT'' s of None \<Rightarrow> None | Some rest \<Rightarrow> Some ([], rest))"

fun dot_star :: "string \<Rightarrow> (string \<times> string) option" where
  \<comment> \<open>greedy repetition of the dot: consume one more code unit if that leads to a match,
      otherwise backtrack and try the tail of the pattern here\<close>
  "dot_star [] = usdt []"
| "dot_star (c # cs) =
     (if is_line_terminator c then usdt (c # cs)
      else (case dot_star cs of
              Some (cap, rest) \<Rightarrow> Some (c # cap, rest)
            | None \<Rightarrow> usdt (c # cs)))"

fun dot_plus :: "string \<Rightarrow> (string \<times> string) option" where
  \<comment> \<open>\<^verbatim>\<open>.+\<close>: at least one code unit, then as \<^const>\<open>dot_star\<close>\<close>
  "dot_plus [] = None"
| "dot_plus (c # cs) =
     (if is_line_terminator c then None
      else (case dot_star cs of
              Some (cap, rest) \<Rightarrow> Some (c # cap, rest)
            | None \<Rightarrow> None))"

definition match_here :: "string \<Rightarrow> (string \<times> string) option" where
  \<comment> \<open>the whole pattern at the start of the input: the capture and what follows the match\<close>
  "match_here s = (case match_literal ''BINANCE:'' s of None \<Rightarrow> None | Some r \<Rightarrow> dot_plus r)"

fun regexp_exec :: "string \<Rightarrow> (string \<times> string \<times> string) option" where
  \<comment> \<open>leftmost match: what precedes it, the capture, what follows it\<close>
  "regexp_exec [] =
     (case match_here [] of Some (cap, rest) \<Rightarrow> Some ([], cap, rest) | None \<Rightarrow> None)"
| "regexp_exec (c # cs) =
     (case match_here (c # cs) of
        Some (cap, rest) \<Rightarrow> Some ([], cap, rest)
      | None \<Rightarrow> (case regexp_exec cs of
                  Some (pre, cap, rest) \<Rightarrow> Some (c # pre, cap, rest)
                | None \<Rightarrow> None))"

definition formatSymbol :: "string \<Rightarrow> string" where
  \<comment> \<open>the replacement text \<^verbatim>\<open>$1\<close> is the capture; without a match the input is returned\<close>
  "formatSymbol symbol =
     (case regexp_exec symbol of
        None \<Rightarrow> symbol
      | Some (pre, cap, rest) \<Rightarrow> pre @ cap @ rest)"

subsection \<open>faSymbol and isBranded\<close>

definition toLowerCase_char :: "char \<Rightarrow> char" where
  \<comment> \<open>the upper-case letters among the code units 0 to 255 are A to Z and U+00C0 to U+00DE
      without the multiplication sign U+00D7; each has its lower-case form 32 places on\<close>
  "toLowerCase_char c =
     (let n = (of_char c :: nat)
      in if (65 \<le> n \<and> n \<le> 90) \<or> (192 \<le> n \<and> n \<le> 222 \<and> n \<noteq> 215)
         then char_of (n + 32) else c)"

definition toLowerCase :: "string \<Rightarrow> string" where
  "toLowerCase s = map toLowerCase_char s"

definition faSymbol :: "string \<Rightarrow> string" where
  "faSymbol symbol =
     (let x = toLowerCase (formatSymbol symbol)
      in if x = ''eth'' then ''ethereum''
         else if x = ''btc'' then ''btc''
         else '''')"

definition isBranded :: "string \<Rightarrow> bool" where
  "isBranded symbol =
     (let branded = [''BTC'', ''ETH'']
      in if formatSymbol symbol \<in> set branded then True else False)"


section \<open>The streaming session of App.vue\<close>

subsection \<open>JSON values\<close>

text \<open>
  What \<^verbatim>\<open>JSON.parse\<close> returns. The type of numbers is a parameter: the handler only tests
  a number for being zero. An object is the list of its own properties, each name once;
  \<^verbatim>\<open>undefined\<close> is not a JSON value, so a value that may be undefined is an option.
\<close>

datatype 'n json =
    JNull
  | JBool bool
  | JNum 'n
  | JStr string
  | JArr "'n json list"
  | JObj "(string \<times> 'n json) list"

datatype error = SyntaxError | TypeError | InvalidStateError

fun truthy :: "'n::zero json \<Rightarrow> bool" where
  \<comment> \<open>the test \<^verbatim>\<open>if (response)\<close>\<close>
  "truthy JNull = False"
| "truthy (JBool b) = b"
| "truthy (JNum n) = (n \<noteq> 0)"
| "truthy (JStr s) = (s \<noteq> [])"
| "truthy (JArr xs) = True"
| "truthy (JObj ps) = True"

fun get_property :: "'n json \<Rightarrow> string \<Rightarrow> error + 'n json option" where
  \<comment> \<open>\<^verbatim>\<open>value.name\<close> for the names the handler reads (\<^verbatim>\<open>type\<close>, \<^verbatim>\<open>data\<close>, \<^verbatim>\<open>s\<close>), which no
      prototype defines: reading a property of null throws, an object gives its own
      property or undefined, every other value gives undefined\<close>
  "get_property JNull name = Inl TypeError"
| "get_property (JObj ps) name = Inr (map_of ps name)"
| "get_property (JBool b) name = Inr None"
| "get_property (JNum n) name = Inr None"
| "get_property (JStr s) name = Inr None"
| "get_property (JArr xs) name = Inr None"

subsection \<open>The quote store\<close>

text \<open>
  \<^verbatim>\<open>quotes\<close> is a \<^verbatim>\<open>Map\<close>: its entries in insertion order. The declared key type is string,
  but the handler stores under whatever \<^verbatim>\<open>quote.s\<close> is, so a key is any value or undefined.
  \<^verbatim>\<open>Map.prototype.set\<close> replaces the value of the entry with the same key and otherwise
  appends an entry. Keys are compared by value, except that an object or array is only the
  same as itself; such a key comes fresh from the parser, so it is never found in the map.
\<close>

type_synonym 'n quote_map = "('n json option \<times> 'n json) list"

fun is_object :: "'n json option \<Rightarrow> bool" where
  "is_object (Some (JArr xs)) = True"
| "is_object (Some (JObj ps)) = True"
| "is_object v = False"

fun Map_set :: "'n json option \<Rightarrow> 'n json \<Rightarrow> 'n quote_map \<Rightarrow> 'n quote_map" where
  "Map_set k v [] = [(k, v)]"
| "Map_set k v ((k', v') # m) =
     (if k' = k \<and> \<not> is_object k then (k, v) # m else (k', v') # Map_set k v m)"

definition Map_get :: "'n json option \<Rightarrow> 'n quote_map \<Rightarrow> 'n json option" where
  \<comment> \<open>\<^verbatim>\<open>Map.prototype.get\<close> for a key that is not an object; the source never calls it, the
      properties of the store are stated with it\<close>
  "Map_get k m = map_of m k"

subsection \<open>The WebSocket\<close>

text \<open>
  The part of the browser's WebSocket that the source uses. The only listeners ever
  registered are \<^verbatim>\<open>subscribeHandler\<close> for \<^verbatim>\<open>open\<close> and \<^verbatim>\<open>realTimeQuoteResponseHandler\<close>
  for \<^verbatim>\<open>message\<close>; registering a listener twice has no effect, so one flag for each says
  whether it is registered. \<^verbatim>\<open>sent\<close> holds the frames accepted for transmission.
\<close>

datatype readyState = CONNECTING | OPEN | CLOSING | CLOSED

record websocket =
  url :: string
  readyState :: readyState
  on_open :: bool
  on_message :: bool
  sent :: "string list"

definition WebSocket_new :: "string \<Rightarrow> error + websocket" where
  \<comment> \<open>the constructor throws SyntaxError for a URL with a fragment; the scheme and the host
      are fixed by the source, so this is its only failure\<close>
  "WebSocket_new u =
     (if CHR ''#'' \<in> set u then Inl SyntaxError
      else Inr \<lparr>url = u, readyState = CONNECTING, on_open = False, on_message = False,
                sent = []\<rparr>)"

definition WebSocket_send :: "string \<Rightarrow> websocket \<Rightarrow> error + websocket" where
  \<comment> \<open>throws while connecting; queues the data when open; discards it silently when
      closing or closed\<close>
  "WebSocket_send data w =
     (case readyState w of
        CONNECTING \<Rightarrow> Inl InvalidStateError
      | OPEN \<Rightarrow> Inr (w\<lparr>sent := sent w @ [data]\<rparr>)
      | CLOSING \<Rightarrow> Inr w
      | CLOSED \<Rightarrow> Inr w)"

definition WebSocket_close :: "websocket \<Rightarrow> websocket" where
  \<comment> \<open>does nothing when closing or closed, otherwise starts closing\<close>
  "WebSocket_close w =
     (case readyState w of
        CONNECTING \<Rightarrow> w\<lparr>readyState := CLOSING\<rparr>
      | OPEN \<Rightarrow> w\<lparr>readyState := CLOSING\<rparr>
      | CLOSING \<Rightarrow> w
      | CLOSED \<Rightarrow> w)"

subsection \<open>JSON.stringify of the outgoing frames\<close>

definition hex_digit :: "nat \<Rightarrow> char" where
  "hex_digit d = ''0123456789abcdef'' ! (d mod 16)"

definition quote_code_unit :: "char \<Rightarrow> string" where
  \<comment> \<open>one code unit inside a JSON string: the short escapes, \<^verbatim>\<open>\u00XX\<close> for the other
      control characters, everything else as it is\<close>
  "quote_code_unit c =
     (if c = CHR 0x08 then [CHR 0x5C, CHR ''b'']
      else if c = CHR 0x09 then [CHR 0x5C, CHR ''t'']
      else if c = CHR 0x0A then [CHR 0x5C, CHR ''n'']
      else if c = CHR 0x0C then [CHR 0x5C, CHR ''f'']
      else if c = CHR 0x0D then [CHR 0x5C, CHR ''r'']
      else if c = CHR 0x22 then [CHR 0x5C, CHR 0x22]
      else if c = CHR 0x5C then [CHR 0x5C, CHR 0x5C]
      else if (of_char c :: nat) < 32
        then [CHR 0x5C, CHR ''u'', CHR ''0'', CHR ''0'',
              hex_digit (of_char c div 16), hex_digit (of_char c)]
      else [c])"

definition QuoteJSONString :: "string \<Rightarrow> string" where
  "QuoteJSONString s = [CHR 0x22] @ concat (map quote_code_unit s) @ [CHR 0x22]"

fun JSON_members :: "(string \<times> string) list \<Rightarrow> string" where
  "JSON_members [] = []"
| "JSON_members [(k, v)] = QuoteJSONString k @ '':'' @ QuoteJSONString v"
| "JSON_members ((k, v) # ps) =
     QuoteJSONString k @ '':'' @ QuoteJSONString v @ '','' @ JSON_members ps"

definition JSON_stringify :: "(string \<times> string) list \<Rightarrow> string" where
  \<comment> \<open>\<^verbatim>\<open>JSON.stringify\<close> of an object literal whose property values are strings, the only
      use in the source\<close>
  "JSON_stringify ps = ''{'' @ JSON_members ps @ ''}''"

subsection \<open>The state of the component\<close>

text \<open>
  \<^verbatim>\<open>quotes\<close> and \<^verbatim>\<open>socket\<close> are the refs of the source. \<^verbatim>\<open>start\<close> overwrites \<^verbatim>\<open>socket.value\<close>
  without closing the socket it held; that socket stays alive in the browser with its
  listeners, so the state keeps it in \<^verbatim>\<open>replaced\<close>. \<^verbatim>\<open>console\<close> is what \<^verbatim>\<open>console.error\<close>
  has printed.

  A function of the source is a function from the state to an outcome and the new state.
  The outcome is \<^term>\<open>None\<close> for a normal return and the exception otherwise; what was
  written before the exception stays written.
\<close>

record 'n app =
  quotes :: "'n quote_map"
  socket :: "websocket option"
  replaced :: "websocket list"
  console :: "'n json list"

definition init :: "'n app" where
  "init = \<lparr>quotes = [], socket = None, replaced = [], console = []\<rparr>"

fun statements :: "('s \<Rightarrow> error option \<times> 's) list \<Rightarrow> 's \<Rightarrow> error option \<times> 's" where
  \<comment> \<open>statements in sequence: an exception ends the block\<close>
  "statements [] st = (None, st)"
| "statements (f # fs) st =
     (case f st of
        (None, st') \<Rightarrow> statements fs st'
      | (Some e, st') \<Rightarrow> (Some e, st'))"

subsection \<open>subscribe, unsubscribe, start, stop\<close>

definition subscribe :: "string \<Rightarrow> 'n app \<Rightarrow> error option \<times> 'n app" where
  "subscribe symbol st =
     (case socket st of
        None \<Rightarrow> (None, st)
      | Some w \<Rightarrow>
          (case WebSocket_send
                  (JSON_stringify [(''type'', ''subscribe''), (''symbol'', symbol)]) w of
             Inl e \<Rightarrow> (Some e, st)
           | Inr w' \<Rightarrow> (None, st\<lparr>socket := Some w'\<rparr>)))"

definition unsubscribe :: "string \<Rightarrow> 'n app \<Rightarrow> error option \<times> 'n app" where
  "unsubscribe symbol st =
     (case socket st of
        None \<Rightarrow> (None, st)
      | Some w \<Rightarrow>
          (case WebSocket_send
                  (JSON_stringify [(''type'', ''unsubscribe''), (''symbol'', symbol)]) w of
             Inl e \<Rightarrow> (Some e, st)
           | Inr w' \<Rightarrow> (None, st\<lparr>socket := Some w'\<rparr>)))"

definition addSymbol :: "string \<Rightarrow> 'n app \<Rightarrow> error option \<times> 'n app" where
  "addSymbol symbol st = subscribe symbol st"

definition subscribeHandler :: "'n app \<Rightarrow> error option \<times> 'n app" where
  "subscribeHandler st =
     statements
       [subscribe ''AAPL'',
        subscribe ''GME'',
        subscribe ''TSLA'',
        subscribe ''SHOP'',
        subscribe ''BINANCE:BTCUSDT'',
        subscribe ''BINANCE:ETHUSDT'',
        subscribe ''BINANCE:ADAUSDT'',
        subscribe ''BINANCE:SOLUSDT''] st"

definition start :: "string \<Rightarrow> 'n app \<Rightarrow> error option \<times> 'n app" where
  \<comment> \<open>when the constructor throws, \<^verbatim>\<open>socket.value\<close> is not assigned\<close>
  "start token st =
     (case WebSocket_new (''wss://ws.finnhub.io?token='' @ token) of
        Inl e \<Rightarrow> (Some e, st)
      | Inr w \<Rightarrow>
          (None,
           st\<lparr>socket := Some (w\<lparr>on_open := True, on_message := True\<rparr>),
               replaced := (case socket st of
                              None \<Rightarrow> replaced st
                            | Some old \<Rightarrow> replaced st @ [old])\<rparr>))"

definition stop :: "'n app \<Rightarrow> error option \<times> 'n app" where
  "stop st =
     (case socket st of
        None \<Rightarrow> (None, st)
      | Some w \<Rightarrow>
          (None, st\<lparr>socket := Some (WebSocket_close (w\<lparr>on_message := False, on_open := False\<rparr>))\<rparr>))"

subsection \<open>The message handler\<close>

fun forEach_set :: "'n json list \<Rightarrow> 'n quote_map \<Rightarrow> error option \<times> 'n quote_map" where
  \<comment> \<open>\<^verbatim>\<open>trade.data.forEach((quote) => { quotes.value.set(quote.s, quote); })\<close>\<close>
  "forEach_set [] m = (None, m)"
| "forEach_set (quote # rest) m =
     (case get_property quote ''s'' of
        Inl e \<Rightarrow> (Some e, m)
      | Inr k \<Rightarrow> forEach_set rest (Map_set k quote m))"

definition realTimeQuoteResponseHandler ::
  "(string \<Rightarrow> 'n::zero json option) \<Rightarrow> string \<Rightarrow> 'n app \<Rightarrow> error option \<times> 'n app" where
  \<comment> \<open>\<^verbatim>\<open>JSON_parse\<close> is the parser of the runtime, \<^term>\<open>None\<close> where it throws SyntaxError.
      Calling \<^verbatim>\<open>forEach\<close> on anything but an array throws TypeError.\<close>
  "realTimeQuoteResponseHandler JSON_parse data st =
     (case JSON_parse data of
        None \<Rightarrow> (Some SyntaxError, st)
      | Some response \<Rightarrow>
          if truthy response then
            (case get_property response ''type'' of
               Inl e \<Rightarrow> (Some e, st)
             | Inr t \<Rightarrow>
                 if t = Some (JStr ''error'') then
                   (None, st\<lparr>console := console st @ [response]\<rparr>)
                 else if t = Some (JStr ''trade'') then
                   (case get_property response ''data'' of
                      Inl e \<Rightarrow> (Some e, st)
                    | Inr (Some (JArr qs)) \<Rightarrow>
                        (case forEach_set qs (quotes st) of
                           (r, m) \<Rightarrow> (r, st\<lparr>quotes := m\<rparr>))
                    | Inr _ \<Rightarrow> (Some TypeError, st))
                 else (None, st))
          else (None, st))"

subsection \<open>Events of the browser and runs of the component\<close>

text \<open>
  An event reaches the socket held by \<^verbatim>\<open>socket.value\<close> or one of the replaced sockets.
  The handlers do not look at the socket of the event: \<^verbatim>\<open>subscribe\<close> always sends on
  \<^verbatim>\<open>socket.value\<close>. The open event is dispatched once, while the socket is connecting; a
  message is dispatched only while it is open. An exception of a listener is reported by
  the browser and goes no further.
\<close>

datatype target = Current | Replaced nat

definition socket_of :: "target \<Rightarrow> 'n app \<Rightarrow> websocket option" where
  "socket_of tgt st =
     (case tgt of
        Current \<Rightarrow> socket st
      | Replaced i \<Rightarrow> (if i < length (replaced st) then Some (replaced st ! i) else None))"

definition set_readyState :: "target \<Rightarrow> readyState \<Rightarrow> 'n app \<Rightarrow> 'n app" where
  "set_readyState tgt r st =
     (case tgt of
        Current \<Rightarrow> st\<lparr>socket := map_option (\<lambda>w. w\<lparr>readyState := r\<rparr>) (socket st)\<rparr>
      | Replaced i \<Rightarrow>
          (if i < length (replaced st)
           then st\<lparr>replaced := (replaced st)[i := (replaced st ! i)\<lparr>readyState := r\<rparr>]\<rparr>
           else st))"

definition open_event :: "target \<Rightarrow> 'n app \<Rightarrow> error option \<times> 'n app" where
  "open_event tgt st =
     (case socket_of tgt st of
        None \<Rightarrow> (None, st)
      | Some w \<Rightarrow>
          if readyState w = CONNECTING then
            (if on_open w then subscribeHandler (set_readyState tgt OPEN st)
             else (None, set_readyState tgt OPEN st))
          else (None, st))"

definition message_event ::
  "(string \<Rightarrow> 'n::zero json option) \<Rightarrow> target \<Rightarrow> string \<Rightarrow> 'n app \<Rightarrow> error option \<times> 'n app" where
  "message_event JSON_parse tgt data st =
     (case socket_of tgt st of
        None \<Rightarrow> (None, st)
      | Some w \<Rightarrow>
          if readyState w = OPEN \<and> on_message w
          then realTimeQuoteResponseHandler JSON_parse data st
          else (None, st))"

definition close_event :: "target \<Rightarrow> 'n app \<Rightarrow> error option \<times> 'n app" where
  \<comment> \<open>the connection has ended; the source registers no listener for it\<close>
  "close_event tgt st = (None, set_readyState tgt CLOSED st)"

datatype action =
    Start string
  | Stop
  | Subscribe string
  | Unsubscribe string
  | AddSymbol string
  | OpenEvent target
  | MessageEvent target string
  | CloseEvent target

fun perform ::
  "(string \<Rightarrow> 'n::zero json option) \<Rightarrow> action \<Rightarrow> 'n app \<Rightarrow> error option \<times> 'n app" where
  "perform JSON_parse (Start token) st = start token st"
| "perform JSON_parse Stop st = stop st"
| "perform JSON_parse (Subscribe symbol) st = subscribe symbol st"
| "perform JSON_parse (Unsubscribe symbol) st = unsubscribe symbol st"
| "perform JSON_parse (AddSymbol symbol) st = addSymbol symbol st"
| "perform JSON_parse (OpenEvent tgt) st = open_event tgt st"
| "perform JSON_parse (MessageEvent tgt data) st = message_event JSON_parse tgt data st"
| "perform JSON_parse (CloseEvent tgt) st = close_event tgt st"

fun run :: "(string \<Rightarrow> 'n::zero json option) \<Rightarrow> action list \<Rightarrow> 'n app \<Rightarrow> 'n app" where
  \<comment> \<open>the state after a sequence of calls and events; an exception ends the call or the
      listener that raised it, not the component\<close>
  "run JSON_parse [] st = st"
| "run JSON_parse (a # as) st = run JSON_parse as (snd (perform JSON_parse a st))"

subsection \<open>Properties as the specification words them\<close>

definition upper_ascii :: "char \<Rightarrow> char" where
  \<comment> \<open>upper-casing of the letters a to z\<close>
  "upper_ascii c =
     (let n = (of_char c :: nat) in if 97 \<le> n \<and> n \<le> 122 then char_of (n - 32) else c)"

definition spec_isBranded :: "string \<Rightarrow> bool" where
  \<comment> \<open>the specification's wording of isBranded: the formatted, uppercased symbol is
      exactly BTC or ETH\<close>
  "spec_isBranded symbol \<longleftrightarrow>
     map upper_ascii (formatSymbol symbol) = ''BTC'' \<or>
     map upper_ascii (formatSymbol symbol) = ''ETH''"

definition symbol_of :: "'n json \<Rightarrow> 'n json option" where
  \<comment> \<open>the symbol field of a record of a trade frame, undefined where there is none\<close>
  "symbol_of q = (case get_property q ''s'' of Inl e \<Rightarrow> None | Inr k \<Rightarrow> k)"

definition subscribe_frame :: "string \<Rightarrow> string" where
  \<comment> \<open>the text of the frame \<^verbatim>\<open>{type: "subscribe", symbol}\<close>\<close>
  "subscribe_frame symbol =
     ''{'' @ [CHR 0x22] @ ''type'' @ [CHR 0x22] @ '':'' @ [CHR 0x22] @ ''subscribe'' @ [CHR 0x22]
       @ '','' @ [CHR 0x22] @ ''symbol'' @ [CHR 0x22] @ '':'' @ QuoteJSONString symbol @ ''}''"

definition unsubscribe_frame :: "string \<Rightarrow> string" where
  \<comment> \<open>the text of the frame \<^verbatim>\<open>{type: "unsubscribe", symbol}\<close>\<close>
  "unsubscribe_frame symbol =
     ''{'' @ [CHR 0x22] @ ''type'' @ [CHR 0x22] @ '':'' @ [CHR 0x22] @ ''unsubscribe'' @ [CHR 0x22]
       @ '','' @ [CHR 0x22] @ ''symbol'' @ [CHR 0x22] @ '':'' @ QuoteJSONString symbol @ ''}''"

section \<open>The display helpers: proofs\<close>

subsection \<open>formatSymbol\<close>

lemma match_literal_Some_iff: "match_literal p s = Some r \<longleftrightarrow> s = p @ r"
  unfolding match_literal_def by (metis append_eq_conv_conj option.distinct(1) option.inject)

lemma usdt_Some_iff: "usdt s = Some (cap, rest) \<longleftrightarrow> cap = [] \<and> s = ''USDT'' @ rest"
proof -
  have "match_literal ''USDT'' s = Some rest \<longleftrightarrow> s = ''USDT'' @ rest" for rest
    by (rule match_literal_Some_iff)
  then show ?thesis by (cases "match_literal ''USDT'' s") (auto simp: usdt_def)
qed

lemma usdt_append: "usdt (CHR ''U'' # CHR ''S'' # CHR ''D'' # CHR ''T'' # r) = Some ([], r)"
  by (simp add: usdt_def match_literal_def)

lemma dot_star_sound:
  "dot_star s = Some (cap, rest) \<Longrightarrow>
     s = cap @ ''USDT'' @ rest \<and> (\<forall>c\<in>set cap. \<not> is_line_terminator c)"
proof (induction s arbitrary: cap rest)
  case Nil
  then show ?case by (simp add: usdt_Some_iff)
next
  case (Cons c cs)
  from Cons.prems consider
    (more) cap' where "\<not> is_line_terminator c" "dot_star cs = Some (cap', rest)" "cap = c # cap'"
    | (stop) "usdt (c # cs) = Some (cap, rest)"
    by (auto split: if_splits option.splits)
  then show ?case
  proof cases
    case more
    from Cons.IH[OF more(2)] more(1,3) show ?thesis by simp
  next
    case stop
    then have "cap = [] \<and> c # cs = ''USDT'' @ rest" by (simp only: usdt_Some_iff)
    then show ?thesis by simp
  qed
qed

lemma dot_star_whole:
  "\<forall>c\<in>set x. \<not> is_line_terminator c \<Longrightarrow> dot_star (x @ ''USDT'') = Some (x, [])"
  by (induction x) (simp_all add: usdt_def match_literal_def is_line_terminator_def)

lemma dot_star_complete:
  "\<forall>c\<in>set x. \<not> is_line_terminator c \<Longrightarrow> dot_star (x @ ''USDT'' @ r) \<noteq> None"
proof (induction x)
  case Nil
  show ?case by (simp add: usdt_append is_line_terminator_def split: option.splits)
next
  case (Cons c x)
  then show ?case by (auto split: option.splits)
qed

lemma dot_plus_sound:
  assumes d: "dot_plus s = Some (cap, rest)"
  shows "cap \<noteq> [] \<and> s = cap @ ''USDT'' @ rest \<and> (\<forall>c\<in>set cap. \<not> is_line_terminator c)"
proof (cases s)
  case Nil
  with d show ?thesis by simp
next
  case (Cons c cs)
  with d obtain cap' where c: "\<not> is_line_terminator c" "dot_star cs = Some (cap', rest)" "cap = c # cap'"
    by (auto split: if_splits option.splits)
  from dot_star_sound[OF c(2)] c(1,3) Cons show ?thesis by simp
qed

lemma match_here_sound:
  "match_here s = Some (cap, rest) \<Longrightarrow>
     cap \<noteq> [] \<and> s = ''BINANCE:'' @ cap @ ''USDT'' @ rest \<and>
     (\<forall>c\<in>set cap. \<not> is_line_terminator c)"
  unfolding match_here_def
  by (auto simp: match_literal_Some_iff split: option.splits dest: dot_plus_sound)

lemma match_here_whole:
  assumes "x \<noteq> []" "\<forall>c\<in>set x. \<not> is_line_terminator c"
  shows "match_here (''BINANCE:'' @ x @ ''USDT'') = Some (x, [])"
proof -
  obtain c cs where x: "x = c # cs" using assms(1) by (cases x) auto
  have "match_literal ''BINANCE:'' (''BINANCE:'' @ x @ ''USDT'') = Some (x @ ''USDT'')"
    by (simp only: match_literal_Some_iff)
  moreover have "dot_plus (x @ ''USDT'') = Some (x, [])"
    using assms(2) dot_star_whole[of cs] by (simp add: x)
  ultimately show ?thesis by (simp only: match_here_def option.case)
qed

lemma match_here_complete:
  assumes "x \<noteq> []" "\<forall>c\<in>set x. \<not> is_line_terminator c"
  shows "match_here (''BINANCE:'' @ x @ ''USDT'' @ r) \<noteq> None"
proof -
  obtain c cs where x: "x = c # cs" using assms(1) by (cases x) auto
  have l: "match_literal ''BINANCE:'' (''BINANCE:'' @ x @ ''USDT'' @ r) = Some (x @ ''USDT'' @ r)"
    by (simp only: match_literal_Some_iff)
  have "dot_star (cs @ ''USDT'' @ r) \<noteq> None"
    using assms(2) dot_star_complete[of cs r] by (simp add: x)
  then obtain cap rest where "dot_star (cs @ ''USDT'' @ r) = Some (cap, rest)" by auto
  then have "dot_plus (x @ ''USDT'' @ r) = Some (c # cap, rest)"
    using assms(2) by (simp add: x)
  with l show ?thesis by (simp only: match_here_def option.case) simp
qed

lemma regexp_exec_sound:
  "regexp_exec s = Some (pre, cap, rest) \<Longrightarrow>
     cap \<noteq> [] \<and> s = pre @ ''BINANCE:'' @ cap @ ''USDT'' @ rest \<and>
     (\<forall>c\<in>set cap. \<not> is_line_terminator c)"
proof (induction s arbitrary: pre)
  case Nil
  then show ?case by (auto split: option.splits dest: match_here_sound)
next
  case (Cons c cs)
  show ?case
  proof (cases "match_here (c # cs)")
    case None
    with Cons.prems obtain pre' where "regexp_exec cs = Some (pre', cap, rest)" "pre = c # pre'"
      by (auto split: option.splits)
    with Cons.IH[of pre'] show ?thesis by simp
  next
    case (Some a)
    with Cons.prems have "match_here (c # cs) = Some (cap, rest)" "pre = []"
      by (auto split: option.splits)
    then show ?thesis using match_here_sound[of "c # cs" cap rest] by simp
  qed
qed

lemma regexp_exec_complete:
  assumes "x \<noteq> []" "\<forall>c\<in>set x. \<not> is_line_terminator c"
  shows "regexp_exec (p @ ''BINANCE:'' @ x @ ''USDT'' @ r) \<noteq> None"
proof (induction p)
  case Nil
  have "match_here (''BINANCE:'' @ x @ ''USDT'' @ r) \<noteq> None"
    using assms by (rule match_here_complete)
  then show ?case by (auto split: option.splits)
next
  case (Cons c p)
  then show ?case by (auto split: option.splits)
qed

lemma formatSymbol_fixed_iff: "formatSymbol s = s \<longleftrightarrow> regexp_exec s = None"
proof (cases "regexp_exec s")
  case None
  then show ?thesis by (simp add: formatSymbol_def)
next
  case (Some t)
  obtain pre cap rest where t: "t = (pre, cap, rest)" by (cases t) auto
  have e: "regexp_exec s = Some (pre, cap, rest)" using Some t by simp
  from regexp_exec_sound[OF e]
  have s: "s = pre @ ''BINANCE:'' @ cap @ ''USDT'' @ rest" by (rule conjunct2[THEN conjunct1])
  have "length s = length (pre @ cap @ rest) + 12" by (subst s) simp
  then have "pre @ cap @ rest \<noteq> s" by auto
  moreover have "formatSymbol s = pre @ cap @ rest" by (simp add: formatSymbol_def e)
  ultimately show ?thesis using e by simp
qed


text \<open>
  C3 (as amended). The venue in the pattern is the literal \<^verbatim>\<open>BINANCE:\<close>, not any prefix that
  ends in a colon. For every input \<^verbatim>\<open>BINANCE:XXXUSDT\<close> whose \<^verbatim>\<open>XXX\<close> is not empty and holds
  no line terminator, formatSymbol returns \<^verbatim>\<open>XXX\<close>; formatSymbol returns its input unchanged
  exactly when the input has no occurrence of \<^verbatim>\<open>BINANCE:\<close>, at least one code unit that is
  not a line terminator, and \<^verbatim>\<open>USDT\<close>; in particular \<^verbatim>\<open>BINANCE:BTCUSDT\<close> gives \<^verbatim>\<open>BTC\<close> and
  \<^verbatim>\<open>AAPL\<close> gives \<^verbatim>\<open>AAPL\<close>.
\<close>

theorem formatSymbol_BINANCE_shape:
  "(x \<noteq> [] \<and> (\<forall>c\<in>set x. \<not> is_line_terminator c) \<longrightarrow>
      formatSymbol (''BINANCE:'' @ x @ ''USDT'') = x)
   \<and> (formatSymbol s = s \<longleftrightarrow>
        \<not> (\<exists>p y r. s = p @ ''BINANCE:'' @ y @ ''USDT'' @ r \<and> y \<noteq> [] \<and>
                    (\<forall>c\<in>set y. \<not> is_line_terminator c)))
   \<and> formatSymbol ''BINANCE:BTCUSDT'' = ''BTC''
   \<and> formatSymbol ''AAPL'' = ''AAPL''"
proof (intro conjI impI)
  assume x: "x \<noteq> [] \<and> (\<forall>c\<in>set x. \<not> is_line_terminator c)"
  then obtain c cs where "x = c # cs" by (cases x) auto
  moreover have "match_here (''BINANCE:'' @ x @ ''USDT'') = Some (x, [])"
    using x by (intro match_here_whole) simp_all
  ultimately have "regexp_exec (''BINANCE:'' @ x @ ''USDT'') = Some ([], x, [])"
    by simp
  then show "formatSymbol (''BINANCE:'' @ x @ ''USDT'') = x"
    by (simp add: formatSymbol_def)
next
  show "formatSymbol s = s \<longleftrightarrow>
        \<not> (\<exists>p y r. s = p @ ''BINANCE:'' @ y @ ''USDT'' @ r \<and> y \<noteq> [] \<and>
                    (\<forall>c\<in>set y. \<not> is_line_terminator c))"
    unfolding formatSymbol_fixed_iff
  proof
    assume n: "regexp_exec s = None"
    show "\<not> (\<exists>p y r. s = p @ ''BINANCE:'' @ y @ ''USDT'' @ r \<and> y \<noteq> [] \<and>
                    (\<forall>c\<in>set y. \<not> is_line_terminator c))"
    proof
      assume "\<exists>p y r. s = p @ ''BINANCE:'' @ y @ ''USDT'' @ r \<and> y \<noteq> [] \<and>
                    (\<forall>c\<in>set y. \<not> is_line_terminator c)"
      then obtain p y r where s: "s = p @ ''BINANCE:'' @ y @ ''USDT'' @ r"
        and y: "y \<noteq> []" "\<forall>c\<in>set y. \<not> is_line_terminator c" by blast
      from regexp_exec_complete[OF y, of p r] n show False unfolding s by (rule notE)
    qed
  next
    assume n: "\<not> (\<exists>p y r. s = p @ ''BINANCE:'' @ y @ ''USDT'' @ r \<and> y \<noteq> [] \<and>
                    (\<forall>c\<in>set y. \<not> is_line_terminator c))"
    show "regexp_exec s = None"
    proof (cases "regexp_exec s")
      case None
      then show ?thesis .
    next
      case (Some t)
      obtain pre cap rest where t: "t = (pre, cap, rest)" by (cases t) auto
      have e: "regexp_exec s = Some (pre, cap, rest)" using Some t by simp
      from regexp_exec_sound[OF e]
      have "\<exists>p y r. s = p @ ''BINANCE:'' @ y @ ''USDT'' @ r \<and> y \<noteq> [] \<and>
                    (\<forall>c\<in>set y. \<not> is_line_terminator c)"
        by (intro exI[of _ pre] exI[of _ cap] exI[of _ rest]) (elim conjE, intro conjI, assumption+)
      with n show ?thesis by (rule notE)
    qed
  qed
next
  show "formatSymbol ''BINANCE:BTCUSDT'' = ''BTC''"
    by (simp add: formatSymbol_def match_here_def match_literal_def usdt_def is_line_terminator_def)
next
  show "formatSymbol ''AAPL'' = ''AAPL''"
    by (simp add: formatSymbol_def match_here_def match_literal_def)
qed

text \<open>The theorem at \<^verbatim>\<open>BINANCE:SOLUSDT\<close> and at \<^verbatim>\<open>GME\<close>.\<close>

theorem formatSymbol_BINANCE_shape_witness:
  "''SOL'' \<noteq> [] \<and> \<not> (\<exists>c\<in>set ''SOL''. is_line_terminator c) \<and>
   formatSymbol (''BINANCE:'' @ ''SOL'' @ ''USDT'') = ''SOL'' \<and>
   formatSymbol ''GME'' = ''GME'' \<and>
   \<not> (\<exists>p y r. ''GME'' = p @ ''BINANCE:'' @ y @ ''USDT'' @ r \<and> y \<noteq> [] \<and>
                    (\<forall>c\<in>set y. \<not> is_line_terminator c))"
proof -
  have h: "''SOL'' \<noteq> [] \<and> (\<forall>c\<in>set ''SOL''. \<not> is_line_terminator c)"
    by (simp add: is_line_terminator_def)
  have g: "formatSymbol ''GME'' = ''GME''"
    by (simp add: formatSymbol_def match_here_def match_literal_def)
  note t = formatSymbol_BINANCE_shape[of "''SOL''" "''GME''"]
  from t[THEN conjunct1] h have a: "formatSymbol (''BINANCE:'' @ ''SOL'' @ ''USDT'') = ''SOL''"
    by (rule mp)
  from t[THEN conjunct2, THEN conjunct1] g
  have b: "\<not> (\<exists>p y r. ''GME'' = p @ ''BINANCE:'' @ y @ ''USDT'' @ r \<and> y \<noteq> [] \<and>
                    (\<forall>c\<in>set y. \<not> is_line_terminator c))"
    by (rule iffD1)
  from h a g b show ?thesis by blast
qed

text \<open>
  C3 as the specification states it fails: \<^verbatim>\<open>COINBASE:BTCUSDT\<close> has a venue prefix that ends
  in a colon and the suffix \<^verbatim>\<open>USDT\<close>, and formatSymbol does not return \<^verbatim>\<open>BTC\<close> for it.
\<close>

theorem formatSymbol_venue_counterexample:
  "formatSymbol (''COINBASE'' @ '':'' @ ''BTC'' @ ''USDT'') \<noteq> ''BTC''"
  by (simp add: formatSymbol_def match_here_def match_literal_def)


subsection \<open>faSymbol\<close>

lemma of_char_toLowerCase_char:
  "(of_char (toLowerCase_char c) :: nat) =
     (if (65 \<le> (of_char c :: nat) \<and> (of_char c :: nat) \<le> 90) \<or>
         (192 \<le> (of_char c :: nat) \<and> (of_char c :: nat) \<le> 222 \<and> (of_char c :: nat) \<noteq> 215)
      then of_char c + 32 else of_char c)"
  by (simp add: toLowerCase_char_def Let_def)

lemma char_eq_code: "a = b \<longleftrightarrow> (of_char a :: nat) = of_char b"
  by simp

lemma toLowerCase_char_eq_lower:
  assumes "97 \<le> (of_char l :: nat)" "(of_char l :: nat) \<le> 122"
  shows "toLowerCase_char a = l \<longleftrightarrow> a = l \<or> (of_char a :: nat) + 32 = of_char l"
  unfolding char_eq_code[of _ l] of_char_toLowerCase_char
  using assms by (auto split: if_splits)

lemma toLowerCase_char_letters:
  "toLowerCase_char a = CHR ''e'' \<longleftrightarrow> a = CHR ''e'' \<or> a = CHR ''E''"
  "toLowerCase_char a = CHR ''t'' \<longleftrightarrow> a = CHR ''t'' \<or> a = CHR ''T''"
  "toLowerCase_char a = CHR ''h'' \<longleftrightarrow> a = CHR ''h'' \<or> a = CHR ''H''"
  "toLowerCase_char a = CHR ''b'' \<longleftrightarrow> a = CHR ''b'' \<or> a = CHR ''B''"
  "toLowerCase_char a = CHR ''c'' \<longleftrightarrow> a = CHR ''c'' \<or> a = CHR ''C''"
  by (simp_all add: toLowerCase_char_eq_lower) (simp_all add: char_eq_code[of a])

lemma map_eq_three:
  "map f x = [p, q, r] \<longleftrightarrow> (\<exists>a b c. x = [a, b, c] \<and> f a = p \<and> f b = q \<and> f c = r)"
proof
  assume m: "map f x = [p, q, r]"
  then have "length x = 3" by (metis length_map length_Cons list.size(3) numeral_3_eq_3)
  then obtain a b c where "x = [a, b, c]"
    by (metis length_0_conv length_Suc_conv numeral_3_eq_3)
  with m show "\<exists>a b c. x = [a, b, c] \<and> f a = p \<and> f b = q \<and> f c = r" by simp
next
  assume "\<exists>a b c. x = [a, b, c] \<and> f a = p \<and> f b = q \<and> f c = r"
  then show "map f x = [p, q, r]" by auto
qed

lemma toLowerCase_eth:
  "toLowerCase x = ''eth'' \<longleftrightarrow>
     x \<in> {''eth'', ''Eth'', ''eTh'', ''etH'', ''ETh'', ''EtH'', ''eTH'', ''ETH''}"
  unfolding toLowerCase_def map_eq_three toLowerCase_char_letters by auto

lemma toLowerCase_btc:
  "toLowerCase x = ''btc'' \<longleftrightarrow>
     x \<in> {''btc'', ''Btc'', ''bTc'', ''btC'', ''BTc'', ''BtC'', ''bTC'', ''BTC''}"
  unfolding toLowerCase_def map_eq_three toLowerCase_char_letters by auto

text \<open>
  C5. faSymbol returns \<^verbatim>\<open>ethereum\<close> when the formatted symbol is one of the eight case
  variants of \<^verbatim>\<open>eth\<close>, \<^verbatim>\<open>btc\<close> when it is one of the eight case variants of \<^verbatim>\<open>btc\<close>,
  and the empty string for every other symbol.
\<close>

theorem faSymbol_case_insensitive:
  "faSymbol symbol =
     (if formatSymbol symbol \<in>
           {''eth'', ''Eth'', ''eTh'', ''etH'', ''ETh'', ''EtH'', ''eTH'', ''ETH''}
      then ''ethereum''
      else if formatSymbol symbol \<in>
           {''btc'', ''Btc'', ''bTc'', ''btC'', ''BTc'', ''BtC'', ''bTC'', ''BTC''}
      then ''btc''
      else '''')"
  unfolding faSymbol_def Let_def toLowerCase_eth toLowerCase_btc by (rule refl)

subsection \<open>isBranded\<close>

text \<open>
  C4 (as amended). isBranded compares the formatted symbol as it is, without changing its
  case: it returns true exactly when formatSymbol gives \<^verbatim>\<open>BTC\<close> or \<^verbatim>\<open>ETH\<close>; in particular
  it is true for \<^verbatim>\<open>BINANCE:ETHUSDT\<close> and false for \<^verbatim>\<open>AAPL\<close>.
\<close>

theorem isBranded_exact:
  "(isBranded symbol \<longleftrightarrow> formatSymbol symbol = ''BTC'' \<or> formatSymbol symbol = ''ETH'')
   \<and> isBranded ''BINANCE:ETHUSDT''
   \<and> \<not> isBranded ''AAPL''"
proof (intro conjI)
  show "isBranded symbol \<longleftrightarrow> formatSymbol symbol = ''BTC'' \<or> formatSymbol symbol = ''ETH''"
    by (auto simp: isBranded_def)
  have "formatSymbol ''BINANCE:ETHUSDT'' = ''ETH''"
    by (simp add: formatSymbol_def match_here_def match_literal_def usdt_def
        is_line_terminator_def)
  then show "isBranded ''BINANCE:ETHUSDT''"
    by (simp add: isBranded_def)
  have "formatSymbol ''AAPL'' = ''AAPL''"
    by (simp add: formatSymbol_def match_here_def match_literal_def)
  then show "\<not> isBranded ''AAPL''"
    by (simp add: isBranded_def)
qed

text \<open>
  C4 as the specification states it fails: the formatted symbol \<^verbatim>\<open>btc\<close> uppercased is
  \<^verbatim>\<open>BTC\<close>, and isBranded is false for it.
\<close>

theorem isBranded_lowercase_counterexample:
  "spec_isBranded ''btc'' \<and> \<not> isBranded ''btc''"
proof -
  have "formatSymbol ''btc'' = ''btc''"
    by (simp add: formatSymbol_def match_here_def match_literal_def)
  then show ?thesis
    by (simp add: spec_isBranded_def upper_ascii_def isBranded_def char_of_eq_iff)
qed

section \<open>The message handler: proofs\<close>

subsection \<open>Trade frames\<close>

lemma Map_set_same: "\<not> is_object k \<Longrightarrow> map_of (Map_set k v m) k = Some v"
  by (induction m) auto

lemma Map_set_other: "k' \<noteq> k \<Longrightarrow> map_of (Map_set k v m) k' = map_of m k'"
  by (induction m) auto

lemma Map_set_keys: "fst ` set (Map_set k v m) = insert k (fst ` set m)"
proof (induction m)
  case Nil
  show ?case by simp
next
  case (Cons e m)
  obtain k' v' where e: "e = (k', v')" by (cases e)
  show ?case
  proof (cases "k' = k \<and> \<not> is_object k")
    case True
    then show ?thesis by (simp add: e)
  next
    case False
    then have "Map_set k v (e # m) = (k', v') # Map_set k v m" by (auto simp: e)
    then show ?thesis using Cons.IH by (simp add: e insert_commute)
  qed
qed

lemma Map_set_entries: "set (Map_set k v m) \<subseteq> insert (k, v) (set m)"
  by (induction m) (auto split: if_splits)

lemma Map_set_distinct:
  "\<not> is_object k \<Longrightarrow> distinct (map fst m) \<Longrightarrow> distinct (map fst (Map_set k v m))"
proof (induction m)
  case Nil
  then show ?case by simp
next
  case (Cons e m)
  obtain k' v' where e: "e = (k', v')" by (cases e)
  show ?case
  proof (cases "k' = k")
    case True
    with Cons.prems show ?thesis by (simp add: e)
  next
    case False
    have "k' \<notin> fst ` set (Map_set k v m)"
      using False Cons.prems(2) by (simp add: Map_set_keys e)
    with False Cons show ?thesis by (simp add: e)
  qed
qed

lemma get_property_symbol_of: "q \<noteq> JNull \<Longrightarrow> get_property q ''s'' = Inr (symbol_of q)"
  by (cases q) (simp_all add: symbol_of_def)

lemma forEach_set_records:
  "JNull \<notin> set qs \<Longrightarrow>
     forEach_set qs m = (None, foldl (\<lambda>m q. Map_set (symbol_of q) q m) m qs)"
proof (induction qs arbitrary: m)
  case Nil
  show ?case by simp
next
  case (Cons q qs)
  then have "q \<noteq> JNull" and "JNull \<notin> set qs" by auto
  with Cons.IH show ?case by (simp add: get_property_symbol_of)
qed

lemma upserts_lookup:
  "\<not> is_object k \<Longrightarrow>
     map_of (foldl (\<lambda>m q. Map_set (symbol_of q) q m) m qs) k =
       (case find (\<lambda>q. symbol_of q = k) (rev qs) of Some q \<Rightarrow> Some q | None \<Rightarrow> map_of m k)"
proof (induction qs rule: rev_induct)
  case Nil
  show ?case by simp
next
  case (snoc q qs)
  show ?case
  proof (cases "symbol_of q = k")
    case True
    with snoc.prems show ?thesis by (simp add: Map_set_same)
  next
    case False
    then have "k \<noteq> symbol_of q" by blast
    with snoc show ?thesis using False by (simp add: Map_set_other)
  qed
qed

lemma upserts_keys:
  "fst ` set (foldl (\<lambda>m q. Map_set (symbol_of q) q m) m qs) = fst ` set m \<union> symbol_of ` set qs"
  by (induction qs rule: rev_induct) (auto simp: Map_set_keys)

lemma upserts_distinct:
  "distinct (map fst m) \<Longrightarrow> \<forall>q\<in>set qs. \<not> is_object (symbol_of q) \<Longrightarrow>
     distinct (map fst (foldl (\<lambda>m q. Map_set (symbol_of q) q m) m qs))"
  by (induction qs rule: rev_induct) (simp_all add: Map_set_distinct)

lemma handler_trade:
  assumes "JSON_parse d = Some (JObj ps)"
    and "map_of ps ''type'' = Some (JStr ''trade'')"
    and "map_of ps ''data'' = Some (JArr qs)"
    and "JNull \<notin> set qs"
  shows "realTimeQuoteResponseHandler JSON_parse d st =
           (None, st\<lparr>quotes := foldl (\<lambda>m q. Map_set (symbol_of q) q m) (quotes st) qs\<rparr>)"
  using assms by (simp add: realTimeQuoteResponseHandler_def forEach_set_records)

text \<open>
  C1. A frame that parses to an object with type \<^verbatim>\<open>trade\<close> and a data array of records is
  handled without an exception, and the store afterwards is the store before with each
  record of the array set, in order, under that record's own \<^verbatim>\<open>s\<close>. So the entry under a key
  is afterwards the last record of the frame with that symbol, whole, and the entry it had
  before when the frame has no such record; the keys of the store are the old keys and the
  symbols of the frame; and no key is entered twice.
\<close>

theorem trade_frame_upserts:
  assumes "JSON_parse d = Some (JObj ps)"
    and "map_of ps ''type'' = Some (JStr ''trade'')"
    and "map_of ps ''data'' = Some (JArr qs)"
    and "JNull \<notin> set qs"
  shows
    "realTimeQuoteResponseHandler JSON_parse d st =
       (None, st\<lparr>quotes := foldl (\<lambda>m q. Map_set (symbol_of q) q m) (quotes st) qs\<rparr>)
     \<and> (\<forall>k. \<not> is_object k \<longrightarrow>
           Map_get k (quotes (snd (realTimeQuoteResponseHandler JSON_parse d st))) =
             (case find (\<lambda>q. symbol_of q = k) (rev qs) of
                Some q \<Rightarrow> Some q
              | None \<Rightarrow> Map_get k (quotes st)))
     \<and> fst ` set (quotes (snd (realTimeQuoteResponseHandler JSON_parse d st))) =
         fst ` set (quotes st) \<union> symbol_of ` set qs
     \<and> (distinct (map fst (quotes st)) \<and> (\<forall>q\<in>set qs. \<not> is_object (symbol_of q)) \<longrightarrow>
         distinct (map fst (quotes (snd (realTimeQuoteResponseHandler JSON_parse d st)))))"
proof -
  note h = handler_trade[of JSON_parse d ps qs st, OF assms]
  show ?thesis
    unfolding h Map_get_def
    by (simp add: upserts_lookup upserts_keys upserts_distinct)
qed


text \<open>
  The theorem at the frame of the specification's example, received when the store holds an
  older quote for \<^verbatim>\<open>AAPL\<close> with a timestamp: the entry is replaced by the new record, which
  has none.
\<close>

theorem trade_frame_upserts_witness:
  "realTimeQuoteResponseHandler
     (\<lambda>d. Some (JObj [(''type'', JStr ''trade''),
                       (''data'', JArr [JObj [(''s'', JStr ''AAPL''), (''p'', JStr ''150.25''),
                                              (''v'', JStr ''10'')]])]))
     ''frame''
     (init\<lparr>quotes := [(Some (JStr ''AAPL''),
                        JObj [(''s'', JStr ''AAPL''), (''p'', JStr ''149.00''),
                              (''v'', JStr ''7''), (''t'', JStr ''1'')])]\<rparr> :: int app)
   = (None,
      init\<lparr>quotes := [(Some (JStr ''AAPL''),
                         JObj [(''s'', JStr ''AAPL''), (''p'', JStr ''150.25''),
                               (''v'', JStr ''10'')])]\<rparr>)"
proof -
  let ?q = "JObj [(''s'', JStr ''AAPL''), (''p'', JStr ''150.25''), (''v'', JStr ''10'')] :: int json"
  let ?ps = "[(''type'', JStr ''trade''), (''data'', JArr [?q])]"
  let ?P = "\<lambda>d::string. Some (JObj ?ps)"
  have 1: "?P ''frame'' = Some (JObj ?ps)" by simp
  have 2: "map_of ?ps ''type'' = Some (JStr ''trade'')" by simp
  have 3: "map_of ?ps ''data'' = Some (JArr [?q])" by simp
  have 4: "JNull \<notin> set [?q]" by simp
  note t = trade_frame_upserts[of ?P "''frame''" ?ps "[?q]", OF 1 2 3 4]
  from t[THEN conjunct1] show ?thesis by (simp add: symbol_of_def)
qed

subsection \<open>Error frames and frames of unknown type\<close>

text \<open>
  C2. For a frame that parses to a value whose type is \<^verbatim>\<open>error\<close>, and for one whose type is
  neither \<^verbatim>\<open>trade\<close> nor \<^verbatim>\<open>error\<close> (also a value without a type, or null), the handler
  returns normally and leaves the store as it was; the error frame is appended to the
  console and nothing else changes, any other frame changes nothing at all.
\<close>

theorem error_and_unknown_frames_ignored:
  assumes "JSON_parse d = Some r"
    and "get_property r ''type'' \<noteq> Inr (Some (JStr ''trade''))"
  shows
    "realTimeQuoteResponseHandler JSON_parse d st =
       (None,
        if get_property r ''type'' = Inr (Some (JStr ''error''))
        then st\<lparr>console := console st @ [r]\<rparr> else st)
     \<and> quotes (snd (realTimeQuoteResponseHandler JSON_parse d st)) = quotes st"
  using assms by (cases r) (simp_all add: realTimeQuoteResponseHandler_def)

text \<open>The theorem at an error frame, the store holding one quote.\<close>

theorem error_and_unknown_frames_ignored_witness:
  "realTimeQuoteResponseHandler
     (\<lambda>d. Some (JObj [(''type'', JStr ''error''), (''msg'', JStr ''Invalid token'')]))
     ''frame''
     (init\<lparr>quotes := [(Some (JStr ''GME''), JObj [(''s'', JStr ''GME'')])]\<rparr> :: int app)
   = (None,
      init\<lparr>quotes := [(Some (JStr ''GME''), JObj [(''s'', JStr ''GME'')])],
           console := [JObj [(''type'', JStr ''error''), (''msg'', JStr ''Invalid token'')]]\<rparr>)"
proof -
  let ?r = "JObj [(''type'', JStr ''error''), (''msg'', JStr ''Invalid token'')] :: int json"
  let ?P = "\<lambda>d::string. Some ?r"
  have 1: "?P ''frame'' = Some ?r" by simp
  have 2: "get_property ?r ''type'' \<noteq> Inr (Some (JStr ''trade''))" by simp
  note t = error_and_unknown_frames_ignored[of ?P "''frame''" ?r, OF 1 2]
  from t[THEN conjunct1] show ?thesis by (simp add: init_def)
qed

section \<open>The streaming session: proofs\<close>

subsection \<open>Outgoing frames\<close>

lemma JSON_stringify_subscribe:
  "JSON_stringify [(''type'', ''subscribe''), (''symbol'', symbol)] = subscribe_frame symbol"
  by (simp add: JSON_stringify_def subscribe_frame_def QuoteJSONString_def quote_code_unit_def)

lemma JSON_stringify_unsubscribe:
  "JSON_stringify [(''type'', ''unsubscribe''), (''symbol'', symbol)] = unsubscribe_frame symbol"
  by (simp add: JSON_stringify_def unsubscribe_frame_def QuoteJSONString_def quote_code_unit_def)

lemma subscribe_open:
  assumes "socket st = Some w" and "readyState w = OPEN"
  shows "subscribe symbol st =
           (None, st\<lparr>socket := Some (w\<lparr>sent := sent w @ [subscribe_frame symbol]\<rparr>)\<rparr>)"
  using assms by (simp add: subscribe_def WebSocket_send_def JSON_stringify_subscribe)

lemma unsubscribe_open:
  assumes "socket st = Some w" and "readyState w = OPEN"
  shows "unsubscribe symbol st =
           (None, st\<lparr>socket := Some (w\<lparr>sent := sent w @ [unsubscribe_frame symbol]\<rparr>)\<rparr>)"
  using assms by (simp add: unsubscribe_def WebSocket_send_def JSON_stringify_unsubscribe)

lemma subscribe_not_open:
  assumes "socket st = None \<or> (socket st = Some w \<and> (readyState w = CLOSING \<or> readyState w = CLOSED))"
  shows "subscribe symbol st = (None, st)"
  using assms by (auto simp: subscribe_def WebSocket_send_def)

lemma unsubscribe_not_open:
  assumes "socket st = None \<or> (socket st = Some w \<and> (readyState w = CLOSING \<or> readyState w = CLOSED))"
  shows "unsubscribe symbol st = (None, st)"
  using assms by (auto simp: unsubscribe_def WebSocket_send_def)

lemma statements_subscribe_open:
  assumes "socket st = Some w" and "readyState w = OPEN"
  shows "statements (map subscribe symbols) st =
           (None, st\<lparr>socket := Some (w\<lparr>sent := sent w @ map subscribe_frame symbols\<rparr>)\<rparr>)"
  using assms
proof (induction symbols arbitrary: st w)
  case Nil
  then show ?case by simp
next
  case (Cons s symbols)
  let ?w = "w\<lparr>sent := sent w @ [subscribe_frame s]\<rparr>"
  let ?st = "st\<lparr>socket := Some ?w\<rparr>"
  have "subscribe s st = (None, ?st)" using Cons.prems by (rule subscribe_open)
  moreover have "statements (map subscribe symbols) ?st =
      (None, ?st\<lparr>socket := Some (?w\<lparr>sent := sent ?w @ map subscribe_frame symbols\<rparr>)\<rparr>)"
    using Cons.prems by (intro Cons.IH) simp_all
  ultimately show ?case by simp
qed

lemma subscribeHandler_open:
  assumes "socket st = Some w" and "readyState w = OPEN"
  shows "subscribeHandler st =
           (None, st\<lparr>socket := Some (w\<lparr>sent := sent w @ map subscribe_frame
              [''AAPL'', ''GME'', ''TSLA'', ''SHOP'', ''BINANCE:BTCUSDT'', ''BINANCE:ETHUSDT'',
               ''BINANCE:ADAUSDT'', ''BINANCE:SOLUSDT'']\<rparr>)\<rparr>)"
proof -
  have "subscribeHandler st =
      statements (map subscribe [''AAPL'', ''GME'', ''TSLA'', ''SHOP'', ''BINANCE:BTCUSDT'',
        ''BINANCE:ETHUSDT'', ''BINANCE:ADAUSDT'', ''BINANCE:SOLUSDT'']) st"
    by (simp only: subscribeHandler_def list.map)
  also have "\<dots> = (None, st\<lparr>socket := Some (w\<lparr>sent := sent w @ map subscribe_frame
              [''AAPL'', ''GME'', ''TSLA'', ''SHOP'', ''BINANCE:BTCUSDT'', ''BINANCE:ETHUSDT'',
               ''BINANCE:ADAUSDT'', ''BINANCE:SOLUSDT'']\<rparr>)\<rparr>)"
    using assms by (rule statements_subscribe_open)
  finally show ?thesis .
qed

lemma open_event_current:
  assumes "socket st = Some w" and "readyState w = CONNECTING" and "on_open w"
  shows "open_event Current st =
           (None, st\<lparr>socket := Some (w\<lparr>readyState := OPEN, sent := sent w @ map subscribe_frame
              [''AAPL'', ''GME'', ''TSLA'', ''SHOP'', ''BINANCE:BTCUSDT'', ''BINANCE:ETHUSDT'',
               ''BINANCE:ADAUSDT'', ''BINANCE:SOLUSDT'']\<rparr>)\<rparr>)"
proof -
  let ?st = "set_readyState Current OPEN st"
  have s: "socket ?st = Some (w\<lparr>readyState := OPEN\<rparr>)"
    using assms(1) by (simp add: set_readyState_def)
  have "open_event Current st = subscribeHandler ?st"
    using assms by (simp add: open_event_def socket_of_def)
  also have "\<dots> = (None, ?st\<lparr>socket := Some ((w\<lparr>readyState := OPEN\<rparr>)\<lparr>sent := sent (w\<lparr>readyState := OPEN\<rparr>) @ map subscribe_frame
              [''AAPL'', ''GME'', ''TSLA'', ''SHOP'', ''BINANCE:BTCUSDT'', ''BINANCE:ETHUSDT'',
               ''BINANCE:ADAUSDT'', ''BINANCE:SOLUSDT'']\<rparr>)\<rparr>)"
    using s by (rule subscribeHandler_open) simp
  finally show ?thesis by (simp add: set_readyState_def)
qed

lemma start_ok:
  assumes "CHR ''#'' \<notin> set token"
  shows "start token st =
     (None, st\<lparr>socket := Some \<lparr>url = ''wss://ws.finnhub.io?token='' @ token,
                               readyState = CONNECTING, on_open = True, on_message = True,
                               sent = []\<rparr>,
                replaced := (case socket st of None \<Rightarrow> replaced st
                             | Some old \<Rightarrow> replaced st @ [old])\<rparr>)"
  using assms by (simp add: start_def WebSocket_new_def)

subsection \<open>The open event\<close>

text \<open>
  A socket held by \<^verbatim>\<open>socket.value\<close> that is still connecting has sent nothing and has
  \<^verbatim>\<open>subscribeHandler\<close> registered: no call and no event changes that.
\<close>

lemma fresh_subscribe:
  assumes "\<forall>w. socket st = Some w \<longrightarrow> readyState w = CONNECTING \<longrightarrow> sent w = [] \<and> on_open w"
  shows "\<forall>w. socket (snd (subscribe symbol st)) = Some w \<longrightarrow> readyState w = CONNECTING \<longrightarrow>
           sent w = [] \<and> on_open w"
  using assms
  by (cases "socket st"; cases "readyState (the (socket st))")
     (auto simp: subscribe_def WebSocket_send_def)

lemma fresh_unsubscribe:
  assumes "\<forall>w. socket st = Some w \<longrightarrow> readyState w = CONNECTING \<longrightarrow> sent w = [] \<and> on_open w"
  shows "\<forall>w. socket (snd (unsubscribe symbol st)) = Some w \<longrightarrow> readyState w = CONNECTING \<longrightarrow>
           sent w = [] \<and> on_open w"
  using assms
  by (cases "socket st"; cases "readyState (the (socket st))")
     (auto simp: unsubscribe_def WebSocket_send_def)

lemma fresh_statements:
  assumes "\<forall>w. socket st = Some w \<longrightarrow> readyState w = CONNECTING \<longrightarrow> sent w = [] \<and> on_open w"
  shows "\<forall>w. socket (snd (statements (map subscribe symbols) st)) = Some w \<longrightarrow>
           readyState w = CONNECTING \<longrightarrow> sent w = [] \<and> on_open w"
  using assms
proof (induction symbols arbitrary: st)
  case Nil
  then show ?case by simp
next
  case (Cons s symbols)
  obtain r st' where f: "subscribe s st = (r, st')" by (cases "subscribe s st")
  have i: "\<forall>w. socket st' = Some w \<longrightarrow> readyState w = CONNECTING \<longrightarrow> sent w = [] \<and> on_open w"
    using fresh_subscribe[OF Cons.prems, of s] f by simp
  show ?case
  proof (cases r)
    case None
    with f Cons.IH[OF i] show ?thesis by simp
  next
    case (Some e)
    with f i show ?thesis by simp
  qed
qed

lemma fresh_subscribeHandler:
  assumes "\<forall>w. socket st = Some w \<longrightarrow> readyState w = CONNECTING \<longrightarrow> sent w = [] \<and> on_open w"
  shows "\<forall>w. socket (snd (subscribeHandler st)) = Some w \<longrightarrow> readyState w = CONNECTING \<longrightarrow>
           sent w = [] \<and> on_open w"
proof -
  have e: "subscribeHandler st =
      statements (map subscribe [''AAPL'', ''GME'', ''TSLA'', ''SHOP'', ''BINANCE:BTCUSDT'',
        ''BINANCE:ETHUSDT'', ''BINANCE:ADAUSDT'', ''BINANCE:SOLUSDT'']) st"
    by (simp only: subscribeHandler_def list.map)
  show ?thesis unfolding e using assms by (rule fresh_statements)
qed

lemma fresh_open_event:
  assumes "\<forall>w. socket st = Some w \<longrightarrow> readyState w = CONNECTING \<longrightarrow> sent w = [] \<and> on_open w"
  shows "\<forall>w. socket (snd (open_event tgt st)) = Some w \<longrightarrow> readyState w = CONNECTING \<longrightarrow>
           sent w = [] \<and> on_open w"
proof -
  have s: "\<forall>w. socket (set_readyState tgt OPEN st) = Some w \<longrightarrow> readyState w = CONNECTING \<longrightarrow>
      sent w = [] \<and> on_open w"
    using assms by (cases tgt) (auto simp: set_readyState_def)
  show ?thesis
    using assms s fresh_subscribeHandler[OF s]
    by (simp add: open_event_def split: option.splits)
qed

lemma socket_handler: "socket (snd (realTimeQuoteResponseHandler JSON_parse d st)) = socket st"
  by (simp add: realTimeQuoteResponseHandler_def
      split: option.splits sum.splits json.splits prod.splits)

lemma fresh_perform:
  assumes "\<forall>w. socket st = Some w \<longrightarrow> readyState w = CONNECTING \<longrightarrow> sent w = [] \<and> on_open w"
  shows "\<forall>w. socket (snd (perform JSON_parse a st)) = Some w \<longrightarrow> readyState w = CONNECTING \<longrightarrow>
           sent w = [] \<and> on_open w"
proof (cases a)
  case (Start token)
  then show ?thesis using assms by (auto simp: start_def WebSocket_new_def)
next
  case Stop
  then show ?thesis using assms
    by (cases "socket st"; cases "readyState (the (socket st))")
       (auto simp: stop_def WebSocket_close_def)
next
  case (Subscribe s)
  then show ?thesis using fresh_subscribe[OF assms] by simp
next
  case (Unsubscribe s)
  then show ?thesis using fresh_unsubscribe[OF assms] by simp
next
  case (AddSymbol s)
  then show ?thesis using fresh_subscribe[OF assms] by (simp add: addSymbol_def)
next
  case (OpenEvent tgt)
  then show ?thesis using fresh_open_event[OF assms] by simp
next
  case (MessageEvent tgt d)
  then show ?thesis using assms
    by (simp add: message_event_def socket_handler split: option.splits)
next
  case (CloseEvent tgt)
  then show ?thesis using assms
    by (cases tgt) (auto simp: close_event_def set_readyState_def)
qed

lemma fresh_run:
  assumes "\<forall>w. socket st = Some w \<longrightarrow> readyState w = CONNECTING \<longrightarrow> sent w = [] \<and> on_open w"
  shows "\<forall>w. socket (run JSON_parse acts st) = Some w \<longrightarrow> readyState w = CONNECTING \<longrightarrow>
           sent w = [] \<and> on_open w"
  using assms
proof (induction acts arbitrary: st)
  case Nil
  then show ?case by simp
next
  case (Cons a acts)
  have "\<forall>w. socket (snd (perform JSON_parse a st)) = Some w \<longrightarrow> readyState w = CONNECTING \<longrightarrow>
      sent w = [] \<and> on_open w"
    using Cons.prems by (rule fresh_perform)
  then have "\<forall>w. socket (run JSON_parse acts (snd (perform JSON_parse a st))) = Some w \<longrightarrow>
      readyState w = CONNECTING \<longrightarrow> sent w = [] \<and> on_open w"
    by (rule Cons.IH)
  then show ?case by simp
qed

lemma fresh_run_init:
  "\<forall>w. socket (run JSON_parse acts init) = Some w \<longrightarrow> readyState w = CONNECTING \<longrightarrow>
         sent w = [] \<and> on_open w"
  by (rule fresh_run) (simp add: init_def)

text \<open>
  C6. After \<^verbatim>\<open>start(token)\<close> has created the socket, its open event makes the session send
  on it the subscribe frames for AAPL, GME, TSLA, SHOP, BINANCE:BTCUSDT, BINANCE:ETHUSDT,
  BINANCE:ADAUSDT and BINANCE:SOLUSDT, in this order, and nothing else: these eight frames
  are all that the socket has sent, no exception is raised, and the rest of the state is as
  it was. This holds right after \<^verbatim>\<open>start\<close>, and in every state the component reaches in
  which the socket of \<^verbatim>\<open>socket.value\<close> is still connecting. None of the symbols needs
  escaping in the frame text.
\<close>

theorem open_event_sends_preset_batch:
  "(CHR ''#'' \<notin> set token \<longrightarrow>
      fst (start token st) = None
      \<and> open_event Current (snd (start token st)) =
          (None,
           (snd (start token st))
             \<lparr>socket := Some \<lparr>url = ''wss://ws.finnhub.io?token='' @ token,
                               readyState = OPEN, on_open = True, on_message = True,
                               sent = map subscribe_frame
                                 [''AAPL'', ''GME'', ''TSLA'', ''SHOP'', ''BINANCE:BTCUSDT'',
                                  ''BINANCE:ETHUSDT'', ''BINANCE:ADAUSDT'',
                                  ''BINANCE:SOLUSDT'']\<rparr>\<rparr>))
   \<and> (socket (run JSON_parse acts init) = Some w \<and> readyState w = CONNECTING \<longrightarrow>
        open_event Current (run JSON_parse acts init) =
          (None,
           (run JSON_parse acts init)
             \<lparr>socket := Some (w\<lparr>readyState := OPEN,
                                sent := map subscribe_frame
                                  [''AAPL'', ''GME'', ''TSLA'', ''SHOP'', ''BINANCE:BTCUSDT'',
                                   ''BINANCE:ETHUSDT'', ''BINANCE:ADAUSDT'',
                                   ''BINANCE:SOLUSDT'']\<rparr>)\<rparr>))
   \<and> map QuoteJSONString
         [''AAPL'', ''GME'', ''TSLA'', ''SHOP'', ''BINANCE:BTCUSDT'', ''BINANCE:ETHUSDT'',
          ''BINANCE:ADAUSDT'', ''BINANCE:SOLUSDT''] =
       map (\<lambda>s. [CHR 0x22] @ s @ [CHR 0x22])
         [''AAPL'', ''GME'', ''TSLA'', ''SHOP'', ''BINANCE:BTCUSDT'', ''BINANCE:ETHUSDT'',
          ''BINANCE:ADAUSDT'', ''BINANCE:SOLUSDT'']"
proof (intro conjI impI)
  assume t: "CHR ''#'' \<notin> set token"
  note s = start_ok[OF t, of st]
  show "fst (start token st) = None" by (simp add: s)
  let ?w = "\<lparr>url = ''wss://ws.finnhub.io?token='' @ token, readyState = CONNECTING,
             on_open = True, on_message = True, sent = []\<rparr>"
  have "socket (snd (start token st)) = Some ?w" by (simp add: s)
  then have "open_event Current (snd (start token st)) =
           (None, (snd (start token st))\<lparr>socket := Some (?w\<lparr>readyState := OPEN, sent := sent ?w @ map subscribe_frame
              [''AAPL'', ''GME'', ''TSLA'', ''SHOP'', ''BINANCE:BTCUSDT'', ''BINANCE:ETHUSDT'',
               ''BINANCE:ADAUSDT'', ''BINANCE:SOLUSDT'']\<rparr>)\<rparr>)"
    by (rule open_event_current) simp_all
  then show "open_event Current (snd (start token st)) =
         (None,
          (snd (start token st))
            \<lparr>socket := Some \<lparr>url = ''wss://ws.finnhub.io?token='' @ token,
                              readyState = OPEN, on_open = True, on_message = True,
                              sent = map subscribe_frame
                                [''AAPL'', ''GME'', ''TSLA'', ''SHOP'', ''BINANCE:BTCUSDT'',
                                 ''BINANCE:ETHUSDT'', ''BINANCE:ADAUSDT'',
                                 ''BINANCE:SOLUSDT'']\<rparr>\<rparr>)"
    by simp
next
  assume a: "socket (run JSON_parse acts init) = Some w \<and> readyState w = CONNECTING"
  from fresh_run_init[of JSON_parse acts] a have f: "sent w = []" "on_open w" by auto
  from a have "socket (run JSON_parse acts init) = Some w" "readyState w = CONNECTING" by auto
  from open_event_current[OF this f(2)] f(1)
  show "open_event Current (run JSON_parse acts init) =
          (None,
           (run JSON_parse acts init)
             \<lparr>socket := Some (w\<lparr>readyState := OPEN,
                                sent := map subscribe_frame
                                  [''AAPL'', ''GME'', ''TSLA'', ''SHOP'', ''BINANCE:BTCUSDT'',
                                   ''BINANCE:ETHUSDT'', ''BINANCE:ADAUSDT'',
                                   ''BINANCE:SOLUSDT'']\<rparr>)\<rparr>)"
    by simp
next
  show "map QuoteJSONString
           [''AAPL'', ''GME'', ''TSLA'', ''SHOP'', ''BINANCE:BTCUSDT'', ''BINANCE:ETHUSDT'',
            ''BINANCE:ADAUSDT'', ''BINANCE:SOLUSDT''] =
         map (\<lambda>s. [CHR 0x22] @ s @ [CHR 0x22])
           [''AAPL'', ''GME'', ''TSLA'', ''SHOP'', ''BINANCE:BTCUSDT'', ''BINANCE:ETHUSDT'',
            ''BINANCE:ADAUSDT'', ''BINANCE:SOLUSDT'']"
    by (simp add: QuoteJSONString_def quote_code_unit_def)
qed

text \<open>
  The theorem for the token \<^verbatim>\<open>secret\<close> in the initial state, and after a call of
  addSymbol that came before the connection opened.
\<close>

theorem open_event_sends_preset_batch_witness:
  "CHR ''#'' \<notin> set ''secret''
   \<and> map_option sent
         (socket (snd (open_event Current (snd (start ''secret'' (init :: int app)))))) =
       Some (map subscribe_frame
               [''AAPL'', ''GME'', ''TSLA'', ''SHOP'', ''BINANCE:BTCUSDT'',
                ''BINANCE:ETHUSDT'', ''BINANCE:ADAUSDT'', ''BINANCE:SOLUSDT''])
   \<and> map_option sent
         (socket (snd (open_event Current
            (run (\<lambda>d. None) [Start ''secret'', AddSymbol ''MSFT''] (init :: int app))))) =
       Some (map subscribe_frame
               [''AAPL'', ''GME'', ''TSLA'', ''SHOP'', ''BINANCE:BTCUSDT'',
                ''BINANCE:ETHUSDT'', ''BINANCE:ADAUSDT'', ''BINANCE:SOLUSDT''])"
proof -
  let ?P = "\<lambda>d::string. (None :: int json option)"
  let ?acts = "[Start ''secret'', AddSymbol ''MSFT'']"
  let ?w = "\<lparr>url = ''wss://ws.finnhub.io?token=secret'', readyState = CONNECTING,
             on_open = True, on_message = True, sent = []\<rparr>"
  have h: "CHR ''#'' \<notin> set ''secret''" by simp
  have r: "socket (run ?P ?acts init) = Some ?w \<and> readyState ?w = CONNECTING"
    by (simp add: init_def start_def WebSocket_new_def addSymbol_def subscribe_def
        WebSocket_send_def)
  note t = open_event_sends_preset_batch[of "''secret''" "init :: int app" ?P ?acts ?w]
  from t[THEN conjunct1] h
  have a: "fst (start ''secret'' (init :: int app)) = None
      \<and> open_event Current (snd (start ''secret'' (init :: int app))) =
          (None,
           (snd (start ''secret'' init))
             \<lparr>socket := Some \<lparr>url = ''wss://ws.finnhub.io?token='' @ ''secret'',
                               readyState = OPEN, on_open = True, on_message = True,
                               sent = map subscribe_frame
                                 [''AAPL'', ''GME'', ''TSLA'', ''SHOP'', ''BINANCE:BTCUSDT'',
                                  ''BINANCE:ETHUSDT'', ''BINANCE:ADAUSDT'',
                                  ''BINANCE:SOLUSDT'']\<rparr>\<rparr>)"
    by (rule mp)
  from t[THEN conjunct2, THEN conjunct1] r
  have b: "open_event Current (run ?P ?acts init) =
          (None,
           (run ?P ?acts init)
             \<lparr>socket := Some (?w\<lparr>readyState := OPEN,
                                sent := map subscribe_frame
                                  [''AAPL'', ''GME'', ''TSLA'', ''SHOP'', ''BINANCE:BTCUSDT'',
                                   ''BINANCE:ETHUSDT'', ''BINANCE:ADAUSDT'',
                                   ''BINANCE:SOLUSDT'']\<rparr>)\<rparr>)"
    by (rule mp)
  have a': "map_option sent
         (socket (snd (open_event Current (snd (start ''secret'' (init :: int app)))))) =
       Some (map subscribe_frame
               [''AAPL'', ''GME'', ''TSLA'', ''SHOP'', ''BINANCE:BTCUSDT'',
                ''BINANCE:ETHUSDT'', ''BINANCE:ADAUSDT'', ''BINANCE:SOLUSDT''])"
    by (simp only: a[THEN conjunct2]) simp
  have b': "map_option sent (socket (snd (open_event Current (run ?P ?acts init)))) =
       Some (map subscribe_frame
               [''AAPL'', ''GME'', ''TSLA'', ''SHOP'', ''BINANCE:BTCUSDT'',
                ''BINANCE:ETHUSDT'', ''BINANCE:ADAUSDT'', ''BINANCE:SOLUSDT''])"
    by (simp only: b) simp
  from h a' b' show ?thesis by (intro conjI)
qed

subsection \<open>subscribe and unsubscribe\<close>

text \<open>
  C7 (as amended). The guard of subscribe is that \<^verbatim>\<open>socket.value\<close> is defined, not that the
  connection is open. When \<^verbatim>\<open>socket.value\<close> holds an open socket, subscribe sends the single
  frame \<^verbatim>\<open>{"type":"subscribe","symbol":symbol}\<close> and changes nothing else. When
  \<^verbatim>\<open>socket.value\<close> is undefined, or holds a socket that is closing or closed, subscribe
  changes nothing and raises nothing. unsubscribe does the same with the type
  \<^verbatim>\<open>unsubscribe\<close>. (A socket that is still connecting is left out.)
\<close>

theorem subscribe_sends_when_open:
  "(socket st = Some w \<and> readyState w = OPEN \<longrightarrow>
      subscribe symbol st =
        (None, st\<lparr>socket := Some (w\<lparr>sent := sent w @ [subscribe_frame symbol]\<rparr>)\<rparr>)
      \<and> unsubscribe symbol st =
        (None, st\<lparr>socket := Some (w\<lparr>sent := sent w @ [unsubscribe_frame symbol]\<rparr>)\<rparr>))
   \<and> (socket st = None \<or>
        (socket st = Some w \<and> (readyState w = CLOSING \<or> readyState w = CLOSED)) \<longrightarrow>
      subscribe symbol st = (None, st) \<and> unsubscribe symbol st = (None, st))"
  using subscribe_open[of st w symbol] unsubscribe_open[of st w symbol]
    subscribe_not_open[of st w symbol] unsubscribe_not_open[of st w symbol]
  by blast

text \<open>The theorem at an open socket and in the initial state, which has no socket.\<close>

theorem subscribe_sends_when_open_witness:
  "subscribe ''TSLA''
     (init\<lparr>socket := Some \<lparr>url = ''wss://ws.finnhub.io?token=k'', readyState = OPEN,
                             on_open = True, on_message = True, sent = []\<rparr>\<rparr> :: int app) =
     (None,
      init\<lparr>socket := Some \<lparr>url = ''wss://ws.finnhub.io?token=k'', readyState = OPEN,
                              on_open = True, on_message = True,
                              sent = [subscribe_frame ''TSLA'']\<rparr>\<rparr>)
   \<and> subscribe ''TSLA'' (init :: int app) = (None, init)
   \<and> unsubscribe ''TSLA'' (init :: int app) = (None, init)"
proof -
  let ?w = "\<lparr>url = ''wss://ws.finnhub.io?token=k'', readyState = OPEN,
             on_open = True, on_message = True, sent = []\<rparr>"
  let ?st = "init\<lparr>socket := Some ?w\<rparr> :: int app"
  have 1: "socket ?st = Some ?w \<and> readyState ?w = OPEN" by simp
  have 2: "socket (init :: int app) = None \<or>
      (socket (init :: int app) = Some ?w \<and> (readyState ?w = CLOSING \<or> readyState ?w = CLOSED))"
    by (simp add: init_def)
  from subscribe_sends_when_open[of ?st ?w "''TSLA''", THEN conjunct1] 1
  have a: "subscribe ''TSLA'' ?st =
        (None, ?st\<lparr>socket := Some (?w\<lparr>sent := sent ?w @ [subscribe_frame ''TSLA'']\<rparr>)\<rparr>)"
    by blast
  from subscribe_sends_when_open[of "init :: int app" ?w "''TSLA''", THEN conjunct2] 2
  have b: "subscribe ''TSLA'' (init :: int app) = (None, init)
      \<and> unsubscribe ''TSLA'' (init :: int app) = (None, init)"
    by blast
  from a b show ?thesis by simp
qed

text \<open>
  C7 as the specification states it fails: right after \<^verbatim>\<open>start\<close> the socket is still
  connecting, so the session is not connected, and subscribe raises InvalidStateError.
\<close>

theorem subscribe_while_connecting_counterexample:
  "map_option readyState (socket (snd (start ''token'' (init :: int app)))) = Some CONNECTING
   \<and> fst (subscribe ''AAPL'' (snd (start ''token'' (init :: int app)))) = Some InvalidStateError"
  by (simp add: start_def WebSocket_new_def init_def subscribe_def WebSocket_send_def)

subsection \<open>stop\<close>

lemma stop_None: "socket st = None \<Longrightarrow> stop st = (None, st)"
  by (simp add: stop_def)

lemma stop_twice: "stop (snd (stop st)) = (None, snd (stop st))"
  by (cases "socket st"; cases "readyState (the (socket st))")
     (simp_all add: stop_def WebSocket_close_def)

lemma stop_dead:
  assumes "socket st = Some w" and "readyState w = CLOSING \<or> readyState w = CLOSED"
  shows "stop st = (None, st\<lparr>socket := Some (w\<lparr>on_message := False, on_open := False\<rparr>)\<rparr>)"
  using assms by (auto simp: stop_def WebSocket_close_def)

text \<open>
  C8. \<^verbatim>\<open>stop()\<close> never raises and never changes the quote store. With no socket it changes
  nothing at all; a second \<^verbatim>\<open>stop()\<close> right after a first changes nothing at all; and on a
  socket whose connection is already closing or closed it sends nothing and leaves the
  connection state alone: all it does there is deregister the two listeners.
\<close>

theorem stop_keeps_quotes_and_is_idempotent:
  "fst (stop st) = None
   \<and> quotes (snd (stop st)) = quotes st
   \<and> (socket st = None \<longrightarrow> stop st = (None, st))
   \<and> stop (snd (stop st)) = (None, snd (stop st))
   \<and> (socket st = Some w \<and> (readyState w = CLOSING \<or> readyState w = CLOSED) \<longrightarrow>
        stop st = (None, st\<lparr>socket := Some (w\<lparr>on_message := False, on_open := False\<rparr>)\<rparr>))"
proof (intro conjI impI)
  show "fst (stop st) = None" by (simp add: stop_def split: option.splits)
  show "quotes (snd (stop st)) = quotes st" by (simp add: stop_def split: option.splits)
  show "stop st = (None, st)" if "socket st = None" using that by (rule stop_None)
  show "stop (snd (stop st)) = (None, snd (stop st))" by (rule stop_twice)
  show "stop st = (None, st\<lparr>socket := Some (w\<lparr>on_message := False, on_open := False\<rparr>)\<rparr>)"
    if "socket st = Some w \<and> (readyState w = CLOSING \<or> readyState w = CLOSED)"
    using that by (intro stop_dead) simp_all
qed

text \<open>
  The theorem in the initial state, and on a session that was started, received a quote
  and is stopped twice.
\<close>

theorem stop_keeps_quotes_and_is_idempotent_witness:
  "stop (init :: int app) = (None, init)
   \<and> quotes (snd (stop (snd (stop
        ((snd (start ''k'' init))\<lparr>quotes := [(Some (JStr ''GME''), JObj [(''s'', JStr ''GME'')])]\<rparr>
          :: int app))))) =
       [(Some (JStr ''GME''), JObj [(''s'', JStr ''GME'')])]
   \<and> fst (stop (snd (stop (snd (start ''k'' (init :: int app)))))) = None"
proof -
  have h: "socket (init :: int app) = None" by (simp add: init_def)
  note t = stop_keeps_quotes_and_is_idempotent
  from t[of "init :: int app", THEN conjunct2, THEN conjunct2, THEN conjunct1] h
  have a: "stop (init :: int app) = (None, init)" by (rule mp)
  let ?st = "(snd (start ''k'' init))\<lparr>quotes := [(Some (JStr ''GME''), JObj [(''s'', JStr ''GME'')])]\<rparr> :: int app"
  have b: "quotes (snd (stop (snd (stop ?st)))) = quotes ?st"
    using t[of "snd (stop ?st)", THEN conjunct2, THEN conjunct1]
      t[of ?st, THEN conjunct2, THEN conjunct1] by simp
  have c: "fst (stop (snd (stop (snd (start ''k'' (init :: int app)))))) = None"
    using t[of "snd (stop (snd (start ''k'' (init :: int app))))", THEN conjunct1] .
  from a b c show ?thesis by simp
qed


subsection \<open>The keys of the quote store\<close>

lemma quotes_subscribe: "quotes (snd (subscribe symbol st)) = quotes st"
  by (simp add: subscribe_def split: option.splits sum.splits)

lemma quotes_unsubscribe: "quotes (snd (unsubscribe symbol st)) = quotes st"
  by (simp add: unsubscribe_def split: option.splits sum.splits)

lemma quotes_statements:
  assumes "\<And>f s. f \<in> set fs \<Longrightarrow> quotes (snd (f s)) = quotes s"
  shows "quotes (snd (statements fs st)) = quotes st"
  using assms
proof (induction fs arbitrary: st)
  case Nil
  show ?case by simp
next
  case (Cons f fs)
  obtain r st' where f: "f st = (r, st')" by (cases "f st")
  have q: "quotes st' = quotes st" using Cons.prems[of f st] f by simp
  show ?case
  proof (cases r)
    case None
    have "quotes (snd (statements fs st')) = quotes st'"
      using Cons.prems by (intro Cons.IH) simp
    with None f q show ?thesis by simp
  next
    case (Some e)
    with f q show ?thesis by simp
  qed
qed

lemma quotes_subscribeHandler: "quotes (snd (subscribeHandler st)) = quotes st"
  unfolding subscribeHandler_def
  by (rule quotes_statements) (auto simp: quotes_subscribe)

lemma quotes_start: "quotes (snd (start token st)) = quotes st"
  by (simp add: start_def split: sum.splits)

lemma quotes_stop: "quotes (snd (stop st)) = quotes st"
  by (simp add: stop_def split: option.splits)

lemma quotes_set_readyState: "quotes (set_readyState tgt r st) = quotes st"
  by (simp add: set_readyState_def split: target.splits)

lemma quotes_open_event: "quotes (snd (open_event tgt st)) = quotes st"
  by (simp add: open_event_def quotes_subscribeHandler quotes_set_readyState
      split: option.splits)

lemma quotes_close_event: "quotes (snd (close_event tgt st)) = quotes st"
  by (simp add: close_event_def quotes_set_readyState)

lemma Map_set_keyed:
  assumes "\<forall>(k, q) \<in> set m. get_property q ''s'' = Inr k"
    and "get_property v ''s'' = Inr k"
  shows "\<forall>(k, q) \<in> set (Map_set k v m). get_property q ''s'' = Inr k"
  using assms Map_set_entries[of k v m] by auto

lemma forEach_set_keyed:
  "\<forall>(k, q) \<in> set m. get_property q ''s'' = Inr k \<Longrightarrow>
     \<forall>(k, q) \<in> set (snd (forEach_set qs m)). get_property q ''s'' = Inr k"
proof (induction qs arbitrary: m)
  case Nil
  then show ?case by simp
next
  case (Cons quote qs)
  show ?case
  proof (cases "get_property quote ''s''")
    case (Inl e)
    with Cons.prems show ?thesis by simp
  next
    case (Inr k)
    have "\<forall>(k, q) \<in> set (Map_set k quote m). get_property q ''s'' = Inr k"
      using Cons.prems Inr by (rule Map_set_keyed)
    then have "\<forall>(k, q) \<in> set (snd (forEach_set qs (Map_set k quote m))).
        get_property q ''s'' = Inr k"
      by (rule Cons.IH)
    with Inr show ?thesis by simp
  qed
qed

lemma forEach_set_keyed_result:
  assumes "forEach_set qs m = (r, m')"
    and "\<forall>(k, q) \<in> set m. get_property q ''s'' = Inr k"
  shows "\<forall>(k, q) \<in> set m'. get_property q ''s'' = Inr k"
  using forEach_set_keyed[OF assms(2), of qs] assms(1) by simp

lemma handler_keyed:
  assumes "\<forall>(k, q) \<in> set (quotes st). get_property q ''s'' = Inr k"
  shows "\<forall>(k, q) \<in> set (quotes (snd (realTimeQuoteResponseHandler JSON_parse d st))).
           get_property q ''s'' = Inr k"
proof (cases "\<exists>qs r m'. realTimeQuoteResponseHandler JSON_parse d st = (r, st\<lparr>quotes := m'\<rparr>)
    \<and> forEach_set qs (quotes st) = (r, m')")
  case True
  then obtain qs r m' where
    h: "realTimeQuoteResponseHandler JSON_parse d st = (r, st\<lparr>quotes := m'\<rparr>)"
    and f: "forEach_set qs (quotes st) = (r, m')" by blast
  from forEach_set_keyed_result[OF f assms] show ?thesis by (simp add: h)
next
  case False
  then have "quotes (snd (realTimeQuoteResponseHandler JSON_parse d st)) = quotes st"
    by (auto simp: realTimeQuoteResponseHandler_def
        split: option.splits sum.splits json.splits prod.splits)
  with assms show ?thesis by simp
qed

lemma perform_keyed:
  assumes "\<forall>(k, q) \<in> set (quotes st). get_property q ''s'' = Inr k"
  shows "\<forall>(k, q) \<in> set (quotes (snd (perform JSON_parse a st))). get_property q ''s'' = Inr k"
proof (cases a)
  case (MessageEvent tgt d)
  then show ?thesis
    using assms handler_keyed[OF assms, of JSON_parse d]
    by (simp add: message_event_def split: option.splits)
qed (use assms in \<open>simp_all add: quotes_start quotes_stop quotes_subscribe quotes_unsubscribe
    addSymbol_def quotes_open_event quotes_close_event\<close>)

lemma run_keyed:
  "\<forall>(k, q) \<in> set (quotes st). get_property q ''s'' = Inr k \<Longrightarrow>
     \<forall>(k, q) \<in> set (quotes (run JSON_parse acts st)). get_property q ''s'' = Inr k"
proof (induction acts arbitrary: st)
  case Nil
  then show ?case by simp
next
  case (Cons a acts)
  from Cons.prems have "\<forall>(k, q) \<in> set (quotes (snd (perform JSON_parse a st))).
      get_property q ''s'' = Inr k"
    by (rule perform_keyed)
  then show ?case by (simp add: Cons.IH)
qed

lemma perform_quotes_unchanged:
  assumes "\<forall>tgt d. a \<noteq> MessageEvent tgt d"
  shows "quotes (snd (perform JSON_parse a st)) = quotes st"
  using assms
  by (cases a) (simp_all add: quotes_start quotes_stop quotes_subscribe quotes_unsubscribe
      addSymbol_def quotes_open_event quotes_close_event)

text \<open>
  C10. In every state that the component reaches from its initial state by calls of start,
  stop, subscribe, unsubscribe and addSymbol and by open, message and close events, every
  entry of the quote store has as its key the \<^verbatim>\<open>s\<close> of the record stored. Every single call
  or event preserves this, and only a message event can change the store at all.
\<close>

theorem store_keys_are_symbols:
  "(\<forall>(k, q) \<in> set (quotes (run JSON_parse acts init)). get_property q ''s'' = Inr k)
   \<and> ((\<forall>(k, q) \<in> set (quotes st). get_property q ''s'' = Inr k) \<longrightarrow>
        (\<forall>(k, q) \<in> set (quotes (snd (perform JSON_parse a st))). get_property q ''s'' = Inr k))
   \<and> ((\<forall>tgt d. a \<noteq> MessageEvent tgt d) \<longrightarrow>
        quotes (snd (perform JSON_parse a st)) = quotes st)"
proof (intro conjI impI)
  have "\<forall>(k, q) \<in> set (quotes (init :: 'a app)). get_property q ''s'' = Inr k"
    by (simp add: init_def)
  then show "\<forall>(k, q) \<in> set (quotes (run JSON_parse acts init)). get_property q ''s'' = Inr k"
    by (rule run_keyed)
next
  assume "\<forall>(k, q) \<in> set (quotes st). get_property q ''s'' = Inr k"
  then show "\<forall>(k, q) \<in> set (quotes (snd (perform JSON_parse a st))).
      get_property q ''s'' = Inr k"
    by (rule perform_keyed)
next
  assume "\<forall>tgt d. a \<noteq> MessageEvent tgt d"
  then show "quotes (snd (perform JSON_parse a st)) = quotes st"
    by (rule perform_quotes_unchanged)
qed


text \<open>
  The theorem on a session that is started, opens, receives a trade frame for \<^verbatim>\<open>AAPL\<close> and
  is stopped.
\<close>

theorem store_keys_are_symbols_witness:
  "quotes (run (\<lambda>d. Some (JObj [(''type'', JStr ''trade''),
                      (''data'', JArr [JObj [(''s'', JStr ''AAPL''), (''p'', JStr ''150.25'')]])]))
            [Start ''k'', OpenEvent Current, MessageEvent Current ''frame'', Stop]
            (init :: int app)) =
     [(Some (JStr ''AAPL''), JObj [(''s'', JStr ''AAPL''), (''p'', JStr ''150.25'')])]
   \<and> get_property (JObj [(''s'', JStr ''AAPL''), (''p'', JStr ''150.25'')] :: int json) ''s'' =
       Inr (Some (JStr ''AAPL''))"
proof -
  let ?q = "JObj [(''s'', JStr ''AAPL''), (''p'', JStr ''150.25'')] :: int json"
  let ?P = "\<lambda>d::string. Some (JObj [(''type'', JStr ''trade''), (''data'', JArr [?q])])"
  let ?acts = "[Start ''k'', OpenEvent Current, MessageEvent Current ''frame'', Stop]"
  have r: "quotes (run ?P ?acts (init :: int app)) = [(Some (JStr ''AAPL''), ?q)]"
    by (simp add: init_def start_def WebSocket_new_def open_event_def socket_of_def
        set_readyState_def subscribeHandler_def subscribe_def WebSocket_send_def
        message_event_def realTimeQuoteResponseHandler_def quotes_stop)
  from store_keys_are_symbols[of ?P ?acts, THEN conjunct1]
  have "\<forall>(k, q) \<in> set [(Some (JStr ''AAPL''), ?q)]. get_property q ''s'' = Inr k"
    unfolding r .
  then have "get_property ?q ''s'' = Inr (Some (JStr ''AAPL''))" by simp
  with r show ?thesis by simp
qed

end
